theory Spec2Isabelle
  imports Main
begin

section \<open>Package pubsub: push messages and their decoding\<close>

text \<open>
  Go byte slices and Go strings are both sequences of bytes; Isabelle's \<open>char\<close> is a byte.
\<close>

type_synonym bytes = string

text \<open>
  The error values the two packages build or inspect: \<open>errors.New(msg)\<close>, the wrapper
  \<open>radix.UnmarshalErr{Err: e}\<close> that \<open>maybeMessage.Unmarshal\<close> tests for with a type
  assertion, and a \<open>net.Error\<close>, whose flag is what its \<open>Timeout()\<close> method returns.
\<close>

datatype error =
    ErrorsNew string
  | UnmarshalErr error
  | NetError bool string

record Message =
  Pattern :: string
  Channel :: string
  Message :: bytes

text \<open>
  The closure \<open>pop\<close> of \<open>fromArr\<close>: \<open>b := bb[0]; bb = bb[1:]\<close>. Indexing an empty slice
  panics; \<open>None\<close> is that panic.
\<close>

definition pop :: "bytes list \<Rightarrow> (bytes \<times> bytes list) option" where
  "pop bb = (case bb of [] \<Rightarrow> None | b # rest \<Rightarrow> Some (b, rest))"

definition fromArr :: "bytes list \<Rightarrow> bool \<Rightarrow> Message \<Rightarrow> Message option" where
  "fromArr bb isPat m =
     (case (if isPat
            then (case pop bb of None \<Rightarrow> None
                  | Some (b, bb1) \<Rightarrow> Some (m\<lparr>Pattern := b\<rparr>, bb1))
            else Some (m, bb)) of
        None \<Rightarrow> None
      | Some (m1, bb1) \<Rightarrow>
          (case pop bb1 of None \<Rightarrow> None
           | Some (c, bb2) \<Rightarrow>
               (case pop bb2 of None \<Rightarrow> None
                | Some (b, bb3) \<Rightarrow> Some (m1\<lparr>Channel := c, Message := b\<rparr>))))"

text \<open>
  \<open>Message.Unmarshal(fn)\<close>. The callback \<open>fn(&bb)\<close> is the connection's decoder, outside
  this package: here it is its outcome, an error or the decoded array of byte strings.
  \<open>bytes.ToUpper\<close> belongs to Go's library and is a parameter, so that every statement
  below holds for whatever function upper-cases. The result is the returned error
  (\<open>None\<close> is \<open>nil\<close>) with the receiver after the call; the outer \<open>None\<close> is a panic.
\<close>

definition Unmarshal ::
  "(bytes \<Rightarrow> bytes) \<Rightarrow> error + bytes list \<Rightarrow> Message \<Rightarrow> (error option \<times> Message) option" where
  "Unmarshal ToUpper fn m =
     (case fn of
        Inl err \<Rightarrow> Some (Some err, m)
      | Inr bb \<Rightarrow>
          if length bb < 3
          then Some (Some (UnmarshalErr (ErrorsNew ''message has too few elements'')), m)
          else
            let typ = ToUpper (bb ! 0);
                isPat = (typ = ''PMESSAGE'')
            in if isPat \<and> length bb < 4
               then Some (Some (UnmarshalErr (ErrorsNew ''message has too few elements'')), m)
               else if typ \<noteq> ''MESSAGE''
               then Some (Some (UnmarshalErr (ErrorsNew ''not MESSAGE or PMESSAGE'')), m)
               else (case fromArr (drop 1 bb) isPat m of
                       None \<Rightarrow> None
                     | Some m' \<Rightarrow> Some (None, m')))"

text \<open>
  \<open>bytes.ToUpper\<close> on ASCII input, where it maps \<open>a\<close>..\<open>z\<close> to \<open>A\<close>..\<open>Z\<close> byte by byte:
  the instance used to run the decoder on concrete frames.
\<close>

definition upperByte :: "char \<Rightarrow> char" where
  "upperByte c =
     (let n = (of_char c :: nat) in if 97 \<le> n \<and> n \<le> 122 then char_of (n - 32) else c)"

definition ToUpper_ascii :: "bytes \<Rightarrow> bytes" where
  "ToUpper_ascii s = map upperByte s"

record maybeMessage =
  ok :: bool
  msg :: Message

definition isUnmarshalErr :: "error \<Rightarrow> bool" where
  "isUnmarshalErr e = (case e of UnmarshalErr _ \<Rightarrow> True | _ \<Rightarrow> False)"

text \<open>
  \<open>maybeMessage.Unmarshal(fn)\<close>. Its call \<open>fn(&mm.Message)\<close> hands the embedded
  \<open>Message\<close>, itself an Unmarshaler, to the decoder, which runs \<open>Message.Unmarshal\<close> on
  it and returns that method's error.
\<close>

definition maybeMessage_Unmarshal ::
  "(bytes \<Rightarrow> bytes) \<Rightarrow> error + bytes list \<Rightarrow> maybeMessage \<Rightarrow> (error option \<times> maybeMessage) option" where
  "maybeMessage_Unmarshal ToUpper fn mm =
     (case Unmarshal ToUpper fn (msg mm) of
        None \<Rightarrow> None
      | Some (err, m') \<Rightarrow>
          let mm1 = mm\<lparr>msg := m'\<rparr> in
          (case err of
             Some e \<Rightarrow> if isUnmarshalErr e then Some (None, mm1)
                       else Some (err, mm1\<lparr>ok := False\<rparr>)
           | None \<Rightarrow> Some (err, mm1\<lparr>ok := True\<rparr>)))"

text \<open>
  What \<open>sc.c.Decode(&mm)\<close> leaves in a freshly declared \<open>var mm maybeMessage\<close> and
  returns, when the connection's reader yields \<open>fn\<close>: the connection passes the
  Unmarshaler it is given to its own \<open>Unmarshal\<close> method.
\<close>

definition zeroMessage :: Message where
  "zeroMessage = \<lparr>Pattern = [], Channel = [], Message = []\<rparr>"

definition Decode ::
  "(bytes \<Rightarrow> bytes) \<Rightarrow> error + bytes list \<Rightarrow> (error option \<times> maybeMessage) option" where
  "Decode ToUpper fn = maybeMessage_Unmarshal ToUpper fn \<lparr>ok = False, msg = zeroMessage\<rparr>"

section \<open>Package pubsub: SubConn, its read loop and its callers\<close>

text \<open>
  \<open>err.(net.Error)\<close> with \<open>nerr.Timeout()\<close>, the test of \<open>readSpin\<close>.
\<close>

definition isTimeout :: "error \<Rightarrow> bool" where
  "isTimeout e = (case e of NetError t _ \<Rightarrow> t | _ \<Rightarrow> False)"

text \<open>
  The program points of \<open>readSpin\<close> at which the goroutine can be found between two
  steps: the \<open>select\<close> at the top of the loop, the call of \<open>Decode\<close>, the receive and
  the send of \<open>(<-sc.cmdDoneCh) <- true\<close> (the send on the channel just received), the
  send \<open>ch <- mm.Message\<close>, and the three deferred calls in the order they run.
\<close>

datatype readSpin_point =
    AtSelect
  | AtDecode
  | AtRecvCmdDone
  | AtSendDone nat
  | AtSendCh Message
  | DeferConnClose
  | DeferCloseCloseCh
  | DeferCloseCh
  | Exited

text \<open>
  The program points of a call of \<open>doCmd\<close>: the send \<open>sc.cmdDoneCh <- doneCh\<close>, the
  call of \<open>Encode\<close>, the receive \<open><-doneCh\<close>, and the return. \<open>doCmd\<close> has no result.
\<close>

datatype doCmd_point = SendCmdDone | AtEncode | RecvDone | Returned

text \<open>
  A call of \<open>Close\<close> is in its send \<open>sc.closeCh <- true\<close>, has returned \<open>nil\<close>, or has
  panicked (a send on a closed channel panics, as does a send that is blocked when the
  channel is closed). The panic is recorded for the call; that a panic nobody recovers
  from ends the whole program is not modelled, and the other goroutines go on.
\<close>

datatype Close_point = CloseSending | CloseReturned | ClosePanicked

text \<open>
  The state of one \<open>SubConn\<close> and of the goroutines that use it. Channels are by what
  they hold: \<open>cmdDoneCh\<close> (made with capacity 1) by its buffer, the unbuffered \<open>closeCh\<close>
  by the queue of its blocked senders and whether it is closed, \<open>Ch\<close> by whether it is
  closed. A \<open>doneCh\<close> is a number, fresh for each call of \<open>doCmd\<close>, which also names the
  call; a number names each call of \<open>Close\<close>. The last four fields only record what
  happened: the messages a consumer received from \<open>Ch\<close>, the calls of \<open>sc.c.Encode\<close>, and
  the channels sent on and received from \<open>cmdDoneCh\<close>, each in order of time.
\<close>

record SubConn =
  lastErr :: "error option"
  cmdDoneCh :: "nat list"
  closeCh_sendq :: "nat list"
  closeCh_closed :: bool
  Ch_closed :: bool
  c_closed :: bool
  readSpin_at :: readSpin_point
  doCmd_at :: "nat \<rightharpoonup> doCmd_point"
  doCmd_args :: "nat \<rightharpoonup> string \<times> string list"
  Close_at :: "nat \<rightharpoonup> Close_point"
  Ch_received :: "Message list"
  c_encoded :: "(nat \<times> string \<times> string list) list"
  cmdDoneCh_sent :: "nat list"
  cmdDoneCh_received :: "nat list"

text \<open>
  \<open>New(c)\<close>: the channels are made, nothing is pending, and \<open>go sc.readSpin(ch)\<close> has
  started the read loop.
\<close>

definition New :: SubConn where
  "New = \<lparr>lastErr = None, cmdDoneCh = [], closeCh_sendq = [], closeCh_closed = False,
          Ch_closed = False, c_closed = False, readSpin_at = AtSelect,
          doCmd_at = Map.empty, doCmd_args = Map.empty, Close_at = Map.empty,
          Ch_received = [], c_encoded = [], cmdDoneCh_sent = [], cmdDoneCh_received = []\<rparr>"

definition Err :: "SubConn \<Rightarrow> error option" where
  "Err sc = lastErr sc"

text \<open>
  What can happen next. A goroutine calls \<open>doCmd\<close> or \<open>Close\<close>; a call of \<open>doCmd\<close> gets
  its send into \<open>cmdDoneCh\<close> through, or its \<open>Encode\<close> returns (with the error given);
  \<open>Decode\<close> returns in the read loop (with the error and the \<open>maybeMessage\<close> given); a
  consumer receives from \<open>Ch\<close>; or the read loop takes a step of its own.
\<close>

datatype event =
    Call_doCmd nat string "string list"
  | CmdDoneSend nat
  | Encode nat "error option"
  | Call_Close nat
  | Decoded "error option" maybeMessage
  | ChRecv
  | ReadSpin

text \<open>The five exported commands, each a call of \<open>doCmd\<close>.\<close>

definition Subscribe :: "nat \<Rightarrow> string list \<Rightarrow> event" where
  "Subscribe n channels = Call_doCmd n ''SUBSCRIBE'' channels"

definition PSubscribe :: "nat \<Rightarrow> string list \<Rightarrow> event" where
  "PSubscribe n patterns = Call_doCmd n ''PSUBSCRIBE'' patterns"

definition Unsubscribe :: "nat \<Rightarrow> string list \<Rightarrow> event" where
  "Unsubscribe n channels = Call_doCmd n ''UNSUBSCRIBE'' channels"

definition PUnsubscribe :: "nat \<Rightarrow> string list \<Rightarrow> event" where
  "PUnsubscribe n patterns = Call_doCmd n ''PUNSUBSCRIBE'' patterns"

definition Ping :: "nat \<Rightarrow> event" where
  "Ping n = Call_doCmd n ''PING'' []"

text \<open>
  A step of \<open>readSpin\<close> that needs nobody else's data. At the \<open>select\<close>, a sender blocked
  on \<open>closeCh\<close> is received from (it returns) and the loop returns into its deferred
  calls; with no sender the \<open>default\<close> case falls through to \<open>Decode\<close>. The receive from
  \<open>cmdDoneCh\<close> blocks on an empty buffer, the send on a \<open>doneCh\<close> until its caller is
  receiving. Closing \<open>closeCh\<close> makes every blocked sender panic. \<open>None\<close>: the goroutine is
  blocked, or has exited.
\<close>

definition readSpin :: "SubConn \<Rightarrow> SubConn option" where
  "readSpin sc =
     (case readSpin_at sc of
        AtSelect \<Rightarrow>
          (case closeCh_sendq sc of
             [] \<Rightarrow> Some (sc\<lparr>readSpin_at := AtDecode\<rparr>)
           | k # q \<Rightarrow> Some (sc\<lparr>closeCh_sendq := q,
                                Close_at := (Close_at sc)(k \<mapsto> CloseReturned),
                                readSpin_at := DeferConnClose\<rparr>))
      | AtDecode \<Rightarrow> None
      | AtRecvCmdDone \<Rightarrow>
          (case cmdDoneCh sc of
             [] \<Rightarrow> None
           | n # rest \<Rightarrow> Some (sc\<lparr>cmdDoneCh := rest,
                                   cmdDoneCh_received := cmdDoneCh_received sc @ [n],
                                   readSpin_at := AtSendDone n\<rparr>))
      | AtSendDone n \<Rightarrow>
          (if doCmd_at sc n = Some RecvDone
           then Some (sc\<lparr>doCmd_at := (doCmd_at sc)(n \<mapsto> Returned), readSpin_at := AtSelect\<rparr>)
           else None)
      | AtSendCh m \<Rightarrow> None
      | DeferConnClose \<Rightarrow> Some (sc\<lparr>c_closed := True, readSpin_at := DeferCloseCloseCh\<rparr>)
      | DeferCloseCloseCh \<Rightarrow>
          Some (sc\<lparr>closeCh_closed := True,
                   Close_at := foldr (\<lambda>k f. f(k \<mapsto> ClosePanicked)) (closeCh_sendq sc) (Close_at sc),
                   closeCh_sendq := [],
                   readSpin_at := DeferCloseCh\<rparr>)
      | DeferCloseCh \<Rightarrow> Some (sc\<lparr>Ch_closed := True, readSpin_at := Exited\<rparr>)
      | Exited \<Rightarrow> None)"

text \<open>
  The return of \<open>sc.c.Decode(&mm)\<close> in \<open>readSpin\<close>, with the branches in the order of the
  source: a timeout continues the loop, any other error is stored and the loop returns,
  a reply that is not a message goes to the receive from \<open>cmdDoneCh\<close>, a message to the
  send on \<open>ch\<close>.
\<close>

definition readSpin_Decode :: "error option \<Rightarrow> maybeMessage \<Rightarrow> SubConn \<Rightarrow> SubConn option" where
  "readSpin_Decode err mm sc =
     (if readSpin_at sc \<noteq> AtDecode then None
      else (case err of
              Some e \<Rightarrow>
                if isTimeout e then Some (sc\<lparr>readSpin_at := AtSelect\<rparr>)
                else Some (sc\<lparr>lastErr := Some e, readSpin_at := DeferConnClose\<rparr>)
            | None \<Rightarrow>
                if \<not> ok mm then Some (sc\<lparr>readSpin_at := AtRecvCmdDone\<rparr>)
                else Some (sc\<lparr>readSpin_at := AtSendCh (msg mm)\<rparr>)))"

text \<open>
  \<open>Close\<close>: \<open>sc.closeCh <- true\<close>. On the closed channel the send panics; otherwise the
  caller joins the channel's senders and stays there until \<open>readSpin\<close> receives.
\<close>

definition Close :: "nat \<Rightarrow> SubConn \<Rightarrow> SubConn option" where
  "Close k sc =
     (if Close_at sc k \<noteq> None then None
      else if closeCh_closed sc
      then Some (sc\<lparr>Close_at := (Close_at sc)(k \<mapsto> ClosePanicked)\<rparr>)
      else Some (sc\<lparr>closeCh_sendq := closeCh_sendq sc @ [k],
                    Close_at := (Close_at sc)(k \<mapsto> CloseSending)\<rparr>))"

text \<open>
  \<open>doCmd\<close>, one function for each of its steps: the call (which makes \<open>doneCh\<close>), the
  send into \<open>cmdDoneCh\<close>, which blocks while the buffer holds its one element, and
  \<open>sc.c.Encode(radix.CmdNoKey(cmd, args))\<close>, whose returned error the source drops. The
  last step, the receive from \<open>doneCh\<close>, is the other side of \<open>readSpin\<close>'s send.
\<close>

definition doCmd :: "nat \<Rightarrow> string \<Rightarrow> string list \<Rightarrow> SubConn \<Rightarrow> SubConn option" where
  "doCmd n cmd args sc =
     (if doCmd_at sc n \<noteq> None then None
      else Some (sc\<lparr>doCmd_at := (doCmd_at sc)(n \<mapsto> SendCmdDone),
                    doCmd_args := (doCmd_args sc)(n \<mapsto> (cmd, args))\<rparr>))"

definition doCmd_send :: "nat \<Rightarrow> SubConn \<Rightarrow> SubConn option" where
  "doCmd_send n sc =
     (if doCmd_at sc n = Some SendCmdDone \<and> length (cmdDoneCh sc) < 1
      then Some (sc\<lparr>cmdDoneCh := cmdDoneCh sc @ [n],
                    cmdDoneCh_sent := cmdDoneCh_sent sc @ [n],
                    doCmd_at := (doCmd_at sc)(n \<mapsto> AtEncode)\<rparr>)
      else None)"

definition doCmd_Encode :: "nat \<Rightarrow> error option \<Rightarrow> SubConn \<Rightarrow> SubConn option" where
  "doCmd_Encode n err sc =
     (case (doCmd_at sc n, doCmd_args sc n) of
        (Some AtEncode, Some (cmd, args)) \<Rightarrow>
          Some (sc\<lparr>c_encoded := c_encoded sc @ [(n, cmd, args)],
                   doCmd_at := (doCmd_at sc)(n \<mapsto> RecvDone)\<rparr>)
      | _ \<Rightarrow> None)"

text \<open>
  A consumer's receive from \<open>Ch\<close>: it takes the message \<open>readSpin\<close> is sending, returns at
  once on the closed channel, and blocks otherwise.
\<close>

definition Ch_recv :: "SubConn \<Rightarrow> SubConn option" where
  "Ch_recv sc =
     (case readSpin_at sc of
        AtSendCh m \<Rightarrow> Some (sc\<lparr>Ch_received := Ch_received sc @ [m], readSpin_at := AtSelect\<rparr>)
      | _ \<Rightarrow> if Ch_closed sc then Some sc else None)"

fun step :: "event \<Rightarrow> SubConn \<Rightarrow> SubConn option" where
  "step (Call_doCmd n cmd args) sc = doCmd n cmd args sc"
| "step (CmdDoneSend n) sc = doCmd_send n sc"
| "step (Encode n err) sc = doCmd_Encode n err sc"
| "step (Call_Close k) sc = Close k sc"
| "step (Decoded err mm) sc = readSpin_Decode err mm sc"
| "step ChRecv sc = Ch_recv sc"
| "step ReadSpin sc = readSpin sc"

text \<open>A schedule: the events in the order they happen; \<open>None\<close> if one of them cannot.\<close>

fun run :: "event list \<Rightarrow> SubConn \<Rightarrow> SubConn option" where
  "run [] sc = Some sc"
| "run (e # es) sc = (case step e sc of None \<Rightarrow> None | Some sc' \<Rightarrow> run es sc')"

text \<open>
  The same step of \<open>readSpin\<close> from what the connection's reader yields: \<open>Decode\<close> runs
  \<open>maybeMessage.Unmarshal\<close>, and the loop branches on what it returns.
\<close>

definition readSpin_reply ::
  "(bytes \<Rightarrow> bytes) \<Rightarrow> error + bytes list \<Rightarrow> SubConn \<Rightarrow> SubConn option" where
  "readSpin_reply ToUpper fn sc =
     (case Decode ToUpper fn of None \<Rightarrow> None | Some (err, mm) \<Rightarrow> readSpin_Decode err mm sc)"

section \<open>Package sentinel: the failover client\<close>

text \<open>
  Go's \<open>m[k]\<close> on a \<open>map[string]string\<close>: the empty string when the key is absent.
\<close>

definition mapIndex :: "(string \<rightharpoonup> string) \<Rightarrow> string \<Rightarrow> string" where
  "mapIndex m k = (case m k of None \<Rightarrow> [] | Some v \<Rightarrow> v)"

text \<open>
  The connection to a sentinel, by what the two functions ask of it: its remote address,
  and the outcome of running \<open>SENTINEL MASTER name\<close> into a map and of running
  \<open>SENTINEL SENTINELS name\<close> into a slice of maps.
\<close>

record Conn =
  RemoteAddr :: string
  SENTINEL_MASTER :: "string \<Rightarrow> error + (string \<rightharpoonup> string)"
  SENTINEL_SENTINELS :: "string \<Rightarrow> error + (string \<rightharpoonup> string) list"

text \<open>
  The client. Pools are values of any type \<open>'p\<close>; the field \<open>p\<close> is \<open>None\<close> for \<open>nil\<close>.
  The pool function \<open>pfn\<close> is by its outcome on a network and an address. The dial
  function \<open>dfn\<close> is not used by the functions below and is left out.
\<close>

record 'p sentinelClient =
  p :: "'p option"
  pAddr :: string
  addrs :: "string list"
  name :: string
  pfn :: "string \<Rightarrow> string \<Rightarrow> error + 'p"

text \<open>The calls a function makes on its collaborators, in order: dials and pool closes.\<close>

datatype 'p call = PoolFunc string string | PoolClose 'p

definition ensureMaster ::
  "Conn \<Rightarrow> 'p sentinelClient \<Rightarrow> error option \<times> 'p sentinelClient \<times> 'p call list" where
  "ensureMaster conn sc =
     (let lastAddr = pAddr sc in
      case SENTINEL_MASTER conn (name sc) of
        Inl err \<Rightarrow> (Some err, sc, [])
      | Inr m \<Rightarrow>
          if mapIndex m ''ip'' = [] \<or> mapIndex m ''port'' = []
          then (Some (ErrorsNew ''malformed SENTINEL MASTER response''), sc, [])
          else
            let newAddr = mapIndex m ''ip'' @ '':'' @ mapIndex m ''port'' in
            if newAddr = lastAddr then (None, sc, [])
            else (case pfn sc ''tcp'' newAddr of
                    Inl err \<Rightarrow> (Some err, sc, [PoolFunc ''tcp'' newAddr])
                  | Inr newPool \<Rightarrow>
                      (None, sc\<lparr>p := Some newPool, pAddr := newAddr\<rparr>,
                       PoolFunc ''tcp'' newAddr #
                         (case p sc of None \<Rightarrow> [] | Some old \<Rightarrow> [PoolClose old]))))"

text \<open>
  \<open>ensureSentinelAddrs\<close>; its \<open>for\<close> loop over the reply appends one address for each map.
\<close>

fun appendAddrs :: "string list \<Rightarrow> (string \<rightharpoonup> string) list \<Rightarrow> string list" where
  "appendAddrs as [] = as"
| "appendAddrs as (m # mm) =
     appendAddrs (as @ [mapIndex m ''ip'' @ '':'' @ mapIndex m ''port'']) mm"

definition ensureSentinelAddrs ::
  "Conn \<Rightarrow> 'p sentinelClient \<Rightarrow> error option \<times> 'p sentinelClient" where
  "ensureSentinelAddrs conn sc =
     (let as = [RemoteAddr conn] in
      case SENTINEL_SENTINELS conn (name sc) of
        Inl err \<Rightarrow> (Some err, sc)
      | Inr mm \<Rightarrow> (None, sc\<lparr>addrs := appendAddrs as mm\<rparr>))"

text \<open>
  A sentinel and clients to run the two functions on. The sentinel knows the master of
  \<open>bucket0\<close>, answers for \<open>bucket1\<close> without a port, and knows two other sentinels. A
  pool is named by the address it was dialed for.
\<close>

definition aSentinel :: Conn where
  "aSentinel =
     \<lparr>RemoteAddr = ''10.0.0.1:26379'',
      SENTINEL_MASTER = (\<lambda>n.
        if n = ''bucket0'' then Inr [''ip'' \<mapsto> ''10.0.0.5'', ''port'' \<mapsto> ''6379'']
        else if n = ''bucket1'' then Inr [''ip'' \<mapsto> ''10.0.0.5'']
        else Inl (ErrorsNew ''ERR No such master with that name'')),
      SENTINEL_SENTINELS = (\<lambda>n.
        if n = ''bucket0''
        then Inr [[''ip'' \<mapsto> ''10.0.0.2'', ''port'' \<mapsto> ''26379''],
                  [''ip'' \<mapsto> ''10.0.0.3'', ''port'' \<mapsto> ''26380'']]
        else Inl (ErrorsNew ''ERR No such master with that name''))\<rparr>"

definition dialFails :: "string \<Rightarrow> string \<Rightarrow> error + string" where
  "dialFails network addr = Inl (ErrorsNew ''connection refused'')"

definition dialWorks :: "string \<Rightarrow> string \<Rightarrow> error + string" where
  "dialWorks network addr = Inr (''pool to '' @ addr)"

definition aClient ::
  "string \<Rightarrow> string \<Rightarrow> (string \<Rightarrow> string \<Rightarrow> error + string) \<Rightarrow> string sentinelClient" where
  "aClient n a f =
     \<lparr>p = Some (''pool to '' @ a), pAddr = a, addrs = [''10.0.0.9:26379''], name = n, pfn = f\<rparr>"

text \<open>
  States and schedules to run the read loop on: a reply that is not a message, as
  \<open>Decode\<close> leaves it; the read loop about to call \<open>Decode\<close>; two commands, the second
  entering \<open>cmdDoneCh\<close> after the reply to the first was read; a command whose
  channel the read loop takes before the command is written; and a \<open>SUBSCRIBE\<close> of two
  channels that the server answers with one reply for each channel, followed by a
  \<open>PING\<close>, and after these a third command.
\<close>

definition anAck :: maybeMessage where
  "anAck = \<lparr>ok = False, msg = zeroMessage\<rparr>"

definition atDecode :: SubConn where
  "atDecode = New\<lparr>readSpin_at := AtDecode\<rparr>"


definition earlyAck :: "event list" where
  "earlyAck = [Subscribe 0 [''chan1''], CmdDoneSend 0, ReadSpin, Decoded None anAck, ReadSpin]"






definition returning :: "error option \<Rightarrow> nat \<Rightarrow> SubConn \<Rightarrow> bool" where
  "returning le k sc \<longleftrightarrow>
     lastErr sc = le \<and>
     (k = 3 \<and> readSpin_at sc = DeferConnClose \<or>
      k = 2 \<and> readSpin_at sc = DeferCloseCloseCh \<or>
      k = 1 \<and> readSpin_at sc = DeferCloseCh \<or>
      k = 0 \<and> readSpin_at sc = Exited \<and> Ch_closed sc)"


section \<open>Decoding push frames\<close>

text \<open>
  A plain push of at least three elements is decoded: channel and payload are the second
  and third element, the pattern is untouched.
\<close>

lemma Unmarshal_MESSAGE:
  assumes "3 \<le> length bb" and "ToUpper (bb ! 0) = ''MESSAGE''"
  shows "Unmarshal ToUpper (Inr bb) m = Some (None, m\<lparr>Channel := bb ! 1, Message := bb ! 2\<rparr>)"
proof -
  obtain t c b rest where bb: "bb = t # c # b # rest"
    using assms(1) by (cases bb; cases "tl bb"; cases "tl (tl bb)") auto
  show ?thesis
    using assms(2) by (simp add: bb Unmarshal_def Let_def fromArr_def pop_def)
qed

text \<open>
  A frame tagged \<open>PMESSAGE\<close> is refused whatever its length: with four elements or more it
  passes the length test of the first branch and then meets the second, which refuses
  every tag other than \<open>MESSAGE\<close>.
\<close>

lemma Unmarshal_PMESSAGE:
  assumes "ToUpper (bb ! 0) = ''PMESSAGE''"
  shows "\<exists>e. Unmarshal ToUpper (Inr bb) m = Some (Some (UnmarshalErr e), m)"
  using assms by (auto simp add: Unmarshal_def Let_def)

text \<open>The length tests of \<open>Unmarshal\<close> keep \<open>fromArr\<close> from indexing out of range.\<close>

lemma Unmarshal_no_panic: "Unmarshal ToUpper fn m \<noteq> None"
proof (cases fn)
  case (Inl e)
  then show ?thesis by (simp add: Unmarshal_def)
next
  case (Inr bb)
  show ?thesis
  proof (cases "3 \<le> length bb \<and> ToUpper (bb ! 0) = ''MESSAGE''")
    case True
    then show ?thesis using Unmarshal_MESSAGE [of bb ToUpper m] Inr by simp
  next
    case False
    then show ?thesis using Inr by (auto simp add: Unmarshal_def Let_def)
  qed
qed

text \<open>
  C1. A valid pattern push, \<open>PMESSAGE\<close> with pattern, channel and payload, should decode
  into a Message with these three fields. The code refuses it as
  \<open>not MESSAGE or PMESSAGE\<close> and leaves the Message empty; \<open>maybeMessage.Unmarshal\<close> then
  drops the error, so that the read loop sees a reply that is not a message.
\<close>

theorem Unmarshal_PMESSAGE_frame:
  "Unmarshal ToUpper_ascii (Inr [''PMESSAGE'', ''news.*'', ''news.tech'', ''hello'']) zeroMessage =
     Some (Some (UnmarshalErr (ErrorsNew ''not MESSAGE or PMESSAGE'')), zeroMessage) \<and>
   Decode ToUpper_ascii (Inr [''PMESSAGE'', ''news.*'', ''news.tech'', ''hello'']) =
     Some (None, anAck)"
  by (simp add: Decode_def maybeMessage_Unmarshal_def isUnmarshalErr_def Unmarshal_def
      ToUpper_ascii_def upperByte_def anAck_def)

text \<open>
  C2, as stated: a frame tagged as a push with too few elements ends the read loop with
  the framing error as last error, and is never taken for an acknowledgment. It fails on
  the frame \<open>MESSAGE chan\<close>: \<open>Decode\<close> returns no error and \<open>ok\<close> false, the loop goes on
  to receive from \<open>cmdDoneCh\<close> as for an acknowledgment, and no error is stored.
\<close>

theorem short_frame_taken_for_acknowledgment:
  "Decode ToUpper_ascii (Inr [''MESSAGE'', ''chan'']) = Some (None, anAck) \<and>
   readSpin_reply ToUpper_ascii (Inr [''MESSAGE'', ''chan'']) atDecode =
     Some (atDecode\<lparr>readSpin_at := AtRecvCmdDone\<rparr>) \<and>
   Err (atDecode\<lparr>readSpin_at := AtRecvCmdDone\<rparr>) = None"
  by (simp add: readSpin_reply_def readSpin_Decode_def Decode_def maybeMessage_Unmarshal_def
      isUnmarshalErr_def Unmarshal_def Err_def New_def atDecode_def anAck_def)

text \<open>
  C2, amended: for every frame tagged \<open>MESSAGE\<close> or \<open>PMESSAGE\<close> (after upper-casing)
  with fewer elements than the minimum (3 for plain, 4 for pattern), \<open>Message.Unmarshal\<close>
  fails with the UnmarshalErr \<open>message has too few elements\<close> and leaves the Message as
  it was, so there is no partial result; \<open>maybeMessage.Unmarshal\<close> absorbs that error
  (no error, \<open>ok\<close> false), and the read loop neither ends nor stores an error: it treats
  the frame as an acknowledgment and goes on to receive from \<open>cmdDoneCh\<close>.
\<close>

theorem short_frame_UnmarshalErr_absorbed:
  assumes "bb \<noteq> []"
    and "(ToUpper (bb ! 0) = ''MESSAGE'' \<and> length bb < 3) \<or>
         (ToUpper (bb ! 0) = ''PMESSAGE'' \<and> length bb < 4)"
  shows "Unmarshal ToUpper (Inr bb) m =
           Some (Some (UnmarshalErr (ErrorsNew ''message has too few elements'')), m) \<and>
         Decode ToUpper (Inr bb) = Some (None, \<lparr>ok = False, msg = zeroMessage\<rparr>) \<and>
         (readSpin_at sc = AtDecode \<longrightarrow>
            readSpin_reply ToUpper (Inr bb) sc = Some (sc\<lparr>readSpin_at := AtRecvCmdDone\<rparr>))"
proof -
  have u: "Unmarshal ToUpper (Inr bb) m' =
           Some (Some (UnmarshalErr (ErrorsNew ''message has too few elements'')), m')" for m'
    using assms(2) by (auto simp add: Unmarshal_def Let_def)
  have d: "Decode ToUpper (Inr bb) = Some (None, \<lparr>ok = False, msg = zeroMessage\<rparr>)"
    by (simp add: Decode_def maybeMessage_Unmarshal_def u isUnmarshalErr_def)
  show ?thesis
    by (simp add: u d readSpin_reply_def readSpin_Decode_def)
qed

theorem short_frame_UnmarshalErr_absorbed_witness:
  "[''pmessage'', ''news.*'', ''news.tech''] \<noteq> [] \<and>
   ToUpper_ascii ([''pmessage'', ''news.*'', ''news.tech''] ! 0) = ''PMESSAGE'' \<and>
   length [''pmessage'', ''news.*'', ''news.tech''] < 4 \<and>
   Unmarshal ToUpper_ascii (Inr [''pmessage'', ''news.*'', ''news.tech'']) zeroMessage =
     Some (Some (UnmarshalErr (ErrorsNew ''message has too few elements'')), zeroMessage) \<and>
   Decode ToUpper_ascii (Inr [''pmessage'', ''news.*'', ''news.tech'']) = Some (None, anAck) \<and>
   readSpin_at atDecode = AtDecode \<and>
   readSpin_reply ToUpper_ascii (Inr [''pmessage'', ''news.*'', ''news.tech'']) atDecode =
     Some (atDecode\<lparr>readSpin_at := AtRecvCmdDone\<rparr>)"
proof -
  have h: "ToUpper_ascii ([''pmessage'', ''news.*'', ''news.tech''] ! 0) = ''PMESSAGE''"
    by (simp add: ToUpper_ascii_def upperByte_def char_of_def bit_Suc_0_iff)
  have a: "readSpin_at atDecode = AtDecode" by (simp add: atDecode_def)
  show ?thesis
    using short_frame_UnmarshalErr_absorbed
      [of "[''pmessage'', ''news.*'', ''news.tech'']" ToUpper_ascii zeroMessage atDecode] h a
    by (simp add: anAck_def)
qed

section \<open>The read loop and its callers\<close>

lemmas step_defs = doCmd_def doCmd_send_def doCmd_Encode_def Close_def readSpin_Decode_def
  Ch_recv_def readSpin_def

subsection \<open>Errors of Decode\<close>

text \<open>
  Once the read loop is in its deferred calls, no event changes the stored error, the
  loop is never blocked, and each of its steps runs one deferred call.
\<close>

lemma returning_step:
  assumes "returning le k sc" and "step e sc = Some sc'"
  shows "if e = ReadSpin then 0 < k \<and> returning le (k - 1) sc' else returning le k sc'"
  using assms
  by (cases e) (auto simp add: returning_def step_defs split: if_splits option.splits doCmd_point.splits)

lemma returning_run:
  assumes "returning le k sc" and "run evs sc = Some sc'"
  shows "count_list evs ReadSpin \<le> k \<and> returning le (k - count_list evs ReadSpin) sc'"
  using assms
proof (induction evs arbitrary: sc k)
  case Nil
  then show ?case by simp
next
  case (Cons e evs)
  from Cons.prems(2) obtain sc1 where s1: "step e sc = Some sc1" and r: "run evs sc1 = Some sc'"
    by (auto split: option.splits)
  show ?case
  proof (cases "e = ReadSpin")
    case True
    then have k: "0 < k" and r1: "returning le (k - 1) sc1"
      using returning_step [OF Cons.prems(1) s1] by simp_all
    from Cons.IH [OF r1 r] k True show ?thesis by auto
  next
    case False
    then have r1: "returning le k sc1"
      using returning_step [OF Cons.prems(1) s1] by simp
    from Cons.IH [OF r1 r] False show ?thesis by auto
  qed
qed

text \<open>
  C5. When \<open>Decode\<close> fails in the read loop with a timeout, nothing changes and the loop
  goes back to its top. When it fails with any other error \<open>e\<close>, the loop stores \<open>e\<close> and
  returns; in every schedule that follows, \<open>Err\<close> is \<open>e\<close>, the loop is in its deferred
  calls or has exited, it is never blocked before it has exited, and after three steps
  of its own it has exited with \<open>Ch\<close> closed. So \<open>Err\<close>, called once \<open>Ch\<close> is seen
  closed, returns \<open>e\<close>.
\<close>

theorem Decode_error_recorded:
  assumes "readSpin_at sc = AtDecode"
  shows "(isTimeout e \<longrightarrow> step (Decoded (Some e) mm) sc = Some (sc\<lparr>readSpin_at := AtSelect\<rparr>)) \<and>
         (\<not> isTimeout e \<longrightarrow>
            step (Decoded (Some e) mm) sc =
              Some (sc\<lparr>lastErr := Some e, readSpin_at := DeferConnClose\<rparr>) \<and>
            (\<forall>evs sc'. run (Decoded (Some e) mm # evs) sc = Some sc' \<longrightarrow>
               Err sc' = Some e \<and>
               readSpin_at sc' \<in> {DeferConnClose, DeferCloseCloseCh, DeferCloseCh, Exited} \<and>
               (readSpin_at sc' \<noteq> Exited \<longrightarrow> step ReadSpin sc' \<noteq> None) \<and>
               (3 \<le> count_list evs ReadSpin \<longrightarrow> readSpin_at sc' = Exited \<and> Ch_closed sc')))"
proof (intro conjI impI allI)
  assume "isTimeout e"
  then show "step (Decoded (Some e) mm) sc = Some (sc\<lparr>readSpin_at := AtSelect\<rparr>)"
    using assms by (simp add: readSpin_Decode_def)
next
  assume nt: "\<not> isTimeout e"
  let ?sc1 = "sc\<lparr>lastErr := Some e, readSpin_at := DeferConnClose\<rparr>"
  show s1: "step (Decoded (Some e) mm) sc = Some ?sc1"
    using assms nt by (simp add: readSpin_Decode_def)
  have r1: "returning (Some e) 3 ?sc1" by (simp add: returning_def)
  fix evs sc'
  assume "run (Decoded (Some e) mm # evs) sc = Some sc'"
  then have "run evs ?sc1 = Some sc'" using s1 by simp
  from returning_run [OF r1 this]
  have c: "count_list evs ReadSpin \<le> 3"
    and r: "returning (Some e) (3 - count_list evs ReadSpin) sc'" by simp_all
  show "Err sc' = Some e" using r by (simp add: returning_def Err_def)
  show "readSpin_at sc' \<in> {DeferConnClose, DeferCloseCloseCh, DeferCloseCh, Exited}"
    using r by (auto simp add: returning_def)
  show "step ReadSpin sc' \<noteq> None" if "readSpin_at sc' \<noteq> Exited"
    using r that by (auto simp add: returning_def readSpin_def)
  show "readSpin_at sc' = Exited" if "3 \<le> count_list evs ReadSpin"
    using r that by (auto simp add: returning_def)
  show "Ch_closed sc'" if "3 \<le> count_list evs ReadSpin"
    using r that by (auto simp add: returning_def)
qed

theorem Decode_error_recorded_witness:
  "readSpin_at atDecode = AtDecode \<and>
   isTimeout (NetError True ''i/o timeout'') \<and>
   step (Decoded (Some (NetError True ''i/o timeout'')) anAck) atDecode =
     Some (atDecode\<lparr>readSpin_at := AtSelect\<rparr>) \<and>
   \<not> isTimeout (ErrorsNew ''EOF'') \<and>
   run [Decoded (Some (ErrorsNew ''EOF'')) anAck, ReadSpin, Call_Close 0, ReadSpin, ReadSpin, ChRecv]
     atDecode \<noteq> None \<and>
   Err (the (run [Decoded (Some (ErrorsNew ''EOF'')) anAck, ReadSpin, Call_Close 0, ReadSpin,
                  ReadSpin, ChRecv] atDecode)) = Some (ErrorsNew ''EOF'') \<and>
   Ch_closed (the (run [Decoded (Some (ErrorsNew ''EOF'')) anAck, ReadSpin, Call_Close 0, ReadSpin,
                  ReadSpin, ChRecv] atDecode))"
proof -
  let ?evs = "[ReadSpin, Call_Close 0, ReadSpin, ReadSpin, ChRecv]"
  have a: "readSpin_at atDecode = AtDecode" by (simp add: atDecode_def)
  have t: "isTimeout (NetError True ''i/o timeout'')" and nt: "\<not> isTimeout (ErrorsNew ''EOF'')"
    by (simp_all add: isTimeout_def)
  have r: "run (Decoded (Some (ErrorsNew ''EOF'')) anAck # ?evs) atDecode \<noteq> None"
    by (simp add: atDecode_def New_def step_defs isTimeout_def)
  then obtain sc' where sc': "run (Decoded (Some (ErrorsNew ''EOF'')) anAck # ?evs) atDecode = Some sc'"
    by blast
  have c: "3 \<le> count_list ?evs ReadSpin" by simp
  from Decode_error_recorded [OF a, of "NetError True ''i/o timeout''" anAck] t
  have 1: "step (Decoded (Some (NetError True ''i/o timeout'')) anAck) atDecode =
     Some (atDecode\<lparr>readSpin_at := AtSelect\<rparr>)" by blast
  from Decode_error_recorded [OF a, of "ErrorsNew ''EOF''" anAck] nt sc' c
  have 2: "Err sc' = Some (ErrorsNew ''EOF'') \<and> Ch_closed sc'" by blast
  show ?thesis using a t nt r 1 2 sc' by simp
qed

subsection \<open>An acknowledgment with no command pending\<close>

lemma waiting_step:
  assumes "readSpin_at sc = AtRecvCmdDone" and "cmdDoneCh sc = []"
    and "step e sc = Some sc'" and "\<forall>n. e \<noteq> CmdDoneSend n"
  shows "readSpin_at sc' = AtRecvCmdDone \<and> cmdDoneCh sc' = [] \<and>
         lastErr sc' = lastErr sc \<and> Ch_received sc' = Ch_received sc"
  using assms by (cases e) (auto simp add: step_defs split: if_splits option.splits doCmd_point.splits)

lemma waiting_run:
  assumes "readSpin_at sc = AtRecvCmdDone" and "cmdDoneCh sc = []"
    and "run evs sc = Some sc'" and "\<forall>n. CmdDoneSend n \<notin> set evs"
  shows "readSpin_at sc' = AtRecvCmdDone \<and> cmdDoneCh sc' = [] \<and>
         lastErr sc' = lastErr sc \<and> Ch_received sc' = Ch_received sc"
  using assms
proof (induction evs arbitrary: sc)
  case Nil
  then show ?case by simp
next
  case (Cons e evs)
  from Cons.prems(3) obtain sc1 where s1: "step e sc = Some sc1" and r: "run evs sc1 = Some sc'"
    by (auto split: option.splits)
  have ne: "\<forall>n. e \<noteq> CmdDoneSend n" using Cons.prems(4) by auto
  have w: "readSpin_at sc1 = AtRecvCmdDone \<and> cmdDoneCh sc1 = [] \<and>
         lastErr sc1 = lastErr sc \<and> Ch_received sc1 = Ch_received sc"
    using waiting_step [OF Cons.prems(1,2) s1 ne] .
  have "readSpin_at sc' = AtRecvCmdDone \<and> cmdDoneCh sc' = [] \<and>
         lastErr sc' = lastErr sc1 \<and> Ch_received sc' = Ch_received sc1"
    using Cons.IH [of sc1] w r Cons.prems(4) by simp
  then show ?case using w by simp
qed

text \<open>
  C10. The read loop decodes a reply that is not a message while \<open>cmdDoneCh\<close> is empty.
  In every schedule that follows in which no call of \<open>doCmd\<close> sends into \<open>cmdDoneCh\<close>, the
  loop stays at its receive from \<open>cmdDoneCh\<close> and cannot step, the stored error is as
  before, and no message is delivered; as soon as a call sends its channel, the loop
  receives that channel.
\<close>

theorem acknowledgment_without_command_blocks:
  assumes "readSpin_at sc = AtDecode" and "cmdDoneCh sc = []" and "\<not> ok mm"
    and "run (Decoded None mm # evs) sc = Some sc'"
    and "\<forall>n. CmdDoneSend n \<notin> set evs"
  shows "readSpin_at sc' = AtRecvCmdDone \<and> step ReadSpin sc' = None \<and>
         lastErr sc' = lastErr sc \<and> Ch_received sc' = Ch_received sc \<and>
         (\<forall>n sc''. step (CmdDoneSend n) sc' = Some sc'' \<longrightarrow>
            step ReadSpin sc'' =
              Some (sc''\<lparr>cmdDoneCh := [],
                         cmdDoneCh_received := cmdDoneCh_received sc'' @ [n],
                         readSpin_at := AtSendDone n\<rparr>))"
proof -
  let ?sc1 = "sc\<lparr>readSpin_at := AtRecvCmdDone\<rparr>"
  have s1: "step (Decoded None mm) sc = Some ?sc1"
    using assms(1,3) by (simp add: readSpin_Decode_def)
  then have r: "run evs ?sc1 = Some sc'" using assms(4) by simp
  have w: "readSpin_at sc' = AtRecvCmdDone \<and> cmdDoneCh sc' = [] \<and>
         lastErr sc' = lastErr ?sc1 \<and> Ch_received sc' = Ch_received ?sc1"
    using waiting_run [OF _ _ r assms(5)] assms(2) by simp
  have b: "step ReadSpin sc' = None" using w by (simp add: readSpin_def)
  have c: "step ReadSpin sc'' =
              Some (sc''\<lparr>cmdDoneCh := [],
                         cmdDoneCh_received := cmdDoneCh_received sc'' @ [n],
                         readSpin_at := AtSendDone n\<rparr>)"
    if "step (CmdDoneSend n) sc' = Some sc''" for n sc''
    using that w by (auto simp add: doCmd_send_def readSpin_def split: if_splits)
  show ?thesis using w b c by simp
qed

theorem acknowledgment_without_command_blocks_witness:
  "readSpin_at atDecode = AtDecode \<and> cmdDoneCh atDecode = [] \<and> \<not> ok anAck \<and>
   run [Decoded None anAck, Subscribe 0 [''chan1''], Call_Close 0, Ping 1] atDecode \<noteq> None \<and>
   readSpin_at (the (run [Decoded None anAck, Subscribe 0 [''chan1''], Call_Close 0, Ping 1] atDecode))
     = AtRecvCmdDone \<and>
   step ReadSpin (the (run [Decoded None anAck, Subscribe 0 [''chan1''], Call_Close 0, Ping 1] atDecode))
     = None \<and>
   step (CmdDoneSend 0)
     (the (run [Decoded None anAck, Subscribe 0 [''chan1''], Call_Close 0, Ping 1] atDecode)) \<noteq> None \<and>
   map_option readSpin_at
     (step ReadSpin (the (step (CmdDoneSend 0)
        (the (run [Decoded None anAck, Subscribe 0 [''chan1''], Call_Close 0, Ping 1] atDecode))))) =
     Some (AtSendDone 0)"
proof -
  let ?evs = "[Subscribe 0 [''chan1''], Call_Close 0, Ping 1]"
  let ?sc' = "the (run (Decoded None anAck # ?evs) atDecode)"
  have a: "readSpin_at atDecode = AtDecode" and b: "cmdDoneCh atDecode = []"
    and c: "\<not> ok anAck"
    by (simp_all add: atDecode_def New_def anAck_def)
  have r: "run (Decoded None anAck # ?evs) atDecode \<noteq> None"
    by (simp add: atDecode_def anAck_def Subscribe_def Ping_def New_def step_defs)
  then have sc': "run (Decoded None anAck # ?evs) atDecode = Some ?sc'" by simp
  have n: "\<forall>n. CmdDoneSend n \<notin> set ?evs" by (simp add: Subscribe_def Ping_def)
  have s: "step (CmdDoneSend 0) ?sc' \<noteq> None"
    by (simp add: atDecode_def anAck_def Subscribe_def Ping_def New_def step_defs)
  then have s': "step (CmdDoneSend 0) ?sc' = Some (the (step (CmdDoneSend 0) ?sc'))" by simp
  from acknowledgment_without_command_blocks [OF a b c sc' n] s'
  have "readSpin_at ?sc' = AtRecvCmdDone \<and> step ReadSpin ?sc' = None \<and>
        map_option readSpin_at (step ReadSpin (the (step (CmdDoneSend 0) ?sc'))) =
          Some (AtSendDone 0)"
    by simp
  then show ?thesis using a b c r s by simp
qed

subsection \<open>One command at a time\<close>












subsection \<open>The error of Encode\<close>

text \<open>
  C9. The step of \<open>doCmd\<close> after \<open>Encode\<close> is the same whether \<open>Encode\<close> failed or not:
  the call goes on to receive from its \<open>doneCh\<close>, and it leaves that receive only by a
  step of the read loop that is sending on this \<open>doneCh\<close>. \<open>doCmd\<close> returns nothing, and
  \<open>Subscribe\<close>, \<open>PSubscribe\<close>, \<open>Unsubscribe\<close>, \<open>PUnsubscribe\<close> and \<open>Ping\<close> are calls of
  it.
\<close>

theorem doCmd_drops_Encode_error:
  "step (Encode n (Some e)) sc = step (Encode n None) sc \<and>
   (doCmd_at sc n = Some AtEncode \<and> doCmd_args sc n = Some (cmd, args) \<longrightarrow>
      step (Encode n (Some e)) sc =
        Some (sc\<lparr>c_encoded := c_encoded sc @ [(n, cmd, args)],
                 doCmd_at := (doCmd_at sc)(n \<mapsto> RecvDone)\<rparr>)) \<and>
   (doCmd_at sc n = Some RecvDone \<and> step ev sc = Some sc' \<and> doCmd_at sc' n \<noteq> Some RecvDone \<longrightarrow>
      ev = ReadSpin \<and> readSpin_at sc = AtSendDone n \<and> doCmd_at sc' n = Some Returned) \<and>
   step (Subscribe n xs) sc = doCmd n ''SUBSCRIBE'' xs sc \<and>
   step (PSubscribe n xs) sc = doCmd n ''PSUBSCRIBE'' xs sc \<and>
   step (Unsubscribe n xs) sc = doCmd n ''UNSUBSCRIBE'' xs sc \<and>
   step (PUnsubscribe n xs) sc = doCmd n ''PUNSUBSCRIBE'' xs sc \<and>
   step (Ping n) sc = doCmd n ''PING'' [] sc"
proof -
  have a: "step (Encode n (Some e)) sc = step (Encode n None) sc"
    by (simp add: doCmd_Encode_def)
  have b: "step (Encode n (Some e)) sc =
        Some (sc\<lparr>c_encoded := c_encoded sc @ [(n, cmd, args)],
                 doCmd_at := (doCmd_at sc)(n \<mapsto> RecvDone)\<rparr>)"
    if "doCmd_at sc n = Some AtEncode" "doCmd_args sc n = Some (cmd, args)"
    using that by (simp add: doCmd_Encode_def)
  have c: "ev = ReadSpin \<and> readSpin_at sc = AtSendDone n \<and> doCmd_at sc' n = Some Returned"
    if "doCmd_at sc n = Some RecvDone" "step ev sc = Some sc'" "doCmd_at sc' n \<noteq> Some RecvDone"
    using that
    by (cases ev) (auto simp add: step_defs split: if_splits option.splits doCmd_point.splits
        readSpin_point.splits list.splits)
  show ?thesis using a b c
    by (simp add: Subscribe_def PSubscribe_def Unsubscribe_def PUnsubscribe_def Ping_def)
qed

theorem doCmd_drops_Encode_error_witness:
  "run earlyAck New \<noteq> None \<and>
   doCmd_at (the (run earlyAck New)) 0 = Some AtEncode \<and>
   doCmd_args (the (run earlyAck New)) 0 = Some (''SUBSCRIBE'', [''chan1'']) \<and>
   step (Encode 0 (Some (ErrorsNew ''broken pipe''))) (the (run earlyAck New)) =
     Some ((the (run earlyAck New))
             \<lparr>c_encoded := c_encoded (the (run earlyAck New)) @ [(0, ''SUBSCRIBE'', [''chan1''])],
              doCmd_at := (doCmd_at (the (run earlyAck New)))(0 \<mapsto> RecvDone)\<rparr>) \<and>
   doCmd_at (the (run (earlyAck @ [Encode 0 (Some (ErrorsNew ''broken pipe''))]) New)) 0 =
     Some RecvDone \<and>
   readSpin_at (the (run (earlyAck @ [Encode 0 (Some (ErrorsNew ''broken pipe''))]) New)) =
     AtSendDone 0 \<and>
   doCmd_at (the (run (earlyAck @ [Encode 0 (Some (ErrorsNew ''broken pipe'')), ReadSpin]) New)) 0 =
     Some Returned"
proof -
  let ?e = "ErrorsNew ''broken pipe''"
  let ?sc = "the (run earlyAck New)"
  let ?sc2 = "the (run (earlyAck @ [Encode 0 (Some ?e)]) New)"
  let ?sc3 = "the (run (earlyAck @ [Encode 0 (Some ?e), ReadSpin]) New)"
  have r: "run earlyAck New \<noteq> None"
    and a: "doCmd_at ?sc 0 = Some AtEncode"
    and b: "doCmd_args ?sc 0 = Some (''SUBSCRIBE'', [''chan1''])"
    by (simp_all add: earlyAck_def anAck_def Subscribe_def New_def step_defs)
  have c: "doCmd_at ?sc2 0 = Some RecvDone"
    and d: "step ReadSpin ?sc2 = Some ?sc3"
    and f: "doCmd_at ?sc3 0 \<noteq> Some RecvDone"
    by (simp_all add: earlyAck_def anAck_def Subscribe_def New_def step_defs)
  from doCmd_drops_Encode_error [of 0 ?e ?sc "''SUBSCRIBE''" "[''chan1'']"] a b
  have g: "step (Encode 0 (Some ?e)) ?sc =
     Some (?sc\<lparr>c_encoded := c_encoded ?sc @ [(0, ''SUBSCRIBE'', [''chan1''])],
              doCmd_at := (doCmd_at ?sc)(0 \<mapsto> RecvDone)\<rparr>)"
    by blast
  from doCmd_drops_Encode_error [of 0 ?e ?sc2 _ _ ReadSpin ?sc3] c d f
  have h: "readSpin_at ?sc2 = AtSendDone 0 \<and> doCmd_at ?sc3 0 = Some Returned"
    by blast
  show ?thesis using r a b c g h by simp
qed

subsection \<open>Close\<close>

text \<open>
  C3. \<open>Close\<close> should be safe to call any number of times and at any time. In the code a
  call made after the read loop has exited (here after \<open>Decode\<close> failed with \<open>EOF\<close>)
  panics, since the loop has closed \<open>closeCh\<close>; and a second call panics as well, when
  the loop closes \<open>closeCh\<close> under it or has done so before. The first call of a running
  loop does return while the deferred calls are still to run.
\<close>

theorem Close_after_exit_panics:
  "map_option (\<lambda>sc. (readSpin_at sc, Ch_closed sc, Close_at sc 0))
     (run [ReadSpin, Decoded (Some (ErrorsNew ''EOF'')) anAck, ReadSpin, ReadSpin, ReadSpin,
           Call_Close 0] New) =
     Some (Exited, True, Some ClosePanicked) \<and>
   map_option (\<lambda>sc. (readSpin_at sc, Close_at sc 0, Close_at sc 1))
     (run [Call_Close 0, ReadSpin, Call_Close 1] New) =
     Some (DeferConnClose, Some CloseReturned, Some CloseSending) \<and>
   map_option (\<lambda>sc. (readSpin_at sc, Close_at sc 0, Close_at sc 1))
     (run [Call_Close 0, ReadSpin, Call_Close 1, ReadSpin, ReadSpin] New) =
     Some (DeferCloseCh, Some CloseReturned, Some ClosePanicked) \<and>
   map_option (\<lambda>sc. (readSpin_at sc, Close_at sc 0, Close_at sc 1))
     (run [Call_Close 0, ReadSpin, ReadSpin, ReadSpin, ReadSpin, Call_Close 1] New) =
     Some (Exited, Some CloseReturned, Some ClosePanicked)"
  by (simp add: New_def step_defs isTimeout_def)

section \<open>The failover client\<close>

lemma appendAddrs_map:
  "appendAddrs as mm = as @ map (\<lambda>m. mapIndex m ''ip'' @ '':'' @ mapIndex m ''port'') mm"
  by (induction mm arbitrary: as) simp_all

text \<open>\<open>ensureMaster\<close> with its local variables written out.\<close>

lemma ensureMaster_cases:
  "ensureMaster conn sc =
     (case SENTINEL_MASTER conn (name sc) of
        Inl err \<Rightarrow> (Some err, sc, [])
      | Inr m \<Rightarrow>
          if mapIndex m ''ip'' = [] \<or> mapIndex m ''port'' = []
          then (Some (ErrorsNew ''malformed SENTINEL MASTER response''), sc, [])
          else if mapIndex m ''ip'' @ '':'' @ mapIndex m ''port'' = pAddr sc then (None, sc, [])
          else (case pfn sc ''tcp'' (mapIndex m ''ip'' @ '':'' @ mapIndex m ''port'') of
                  Inl err \<Rightarrow>
                    (Some err, sc, [PoolFunc ''tcp'' (mapIndex m ''ip'' @ '':'' @ mapIndex m ''port'')])
                | Inr newPool \<Rightarrow>
                    (None,
                     sc\<lparr>p := Some newPool, pAddr := mapIndex m ''ip'' @ '':'' @ mapIndex m ''port''\<rparr>,
                     PoolFunc ''tcp'' (mapIndex m ''ip'' @ '':'' @ mapIndex m ''port'') #
                       (case p sc of None \<Rightarrow> [] | Some old \<Rightarrow> [PoolClose old]))))"
  unfolding ensureMaster_def Let_def by (rule refl)

text \<open>
  C6. \<open>ensureMaster\<close> changes nothing when it fails. A reply without \<open>ip\<close> or without
  \<open>port\<close> gives the malformed-response error, before any dial; a failing dial of the new
  pool gives the dial's error; and whenever an error is returned the client (pool,
  address and sentinel addresses) is as it was and no pool has been closed.
\<close>

theorem ensureMaster_failure_atomic:
  "(SENTINEL_MASTER conn (name sc) = Inr m \<and>
      (mapIndex m ''ip'' = [] \<or> mapIndex m ''port'' = []) \<longrightarrow>
    ensureMaster conn sc =
      (Some (ErrorsNew ''malformed SENTINEL MASTER response''), sc, [])) \<and>
   (SENTINEL_MASTER conn (name sc) = Inr m \<and>
      mapIndex m ''ip'' \<noteq> [] \<and> mapIndex m ''port'' \<noteq> [] \<and>
      mapIndex m ''ip'' @ '':'' @ mapIndex m ''port'' \<noteq> pAddr sc \<and>
      pfn sc ''tcp'' (mapIndex m ''ip'' @ '':'' @ mapIndex m ''port'') = Inl e \<longrightarrow>
    ensureMaster conn sc =
      (Some e, sc, [PoolFunc ''tcp'' (mapIndex m ''ip'' @ '':'' @ mapIndex m ''port'')])) \<and>
   (fst (ensureMaster conn sc) \<noteq> None \<longrightarrow>
    fst (snd (ensureMaster conn sc)) = sc \<and>
    (\<forall>old. PoolClose old \<notin> set (snd (snd (ensureMaster conn sc)))))"
proof (intro conjI impI)
  assume "SENTINEL_MASTER conn (name sc) = Inr m \<and>
      (mapIndex m ''ip'' = [] \<or> mapIndex m ''port'' = [])"
  then show "ensureMaster conn sc =
      (Some (ErrorsNew ''malformed SENTINEL MASTER response''), sc, [])"
    by (auto simp add: ensureMaster_cases)
next
  assume "SENTINEL_MASTER conn (name sc) = Inr m \<and>
      mapIndex m ''ip'' \<noteq> [] \<and> mapIndex m ''port'' \<noteq> [] \<and>
      mapIndex m ''ip'' @ '':'' @ mapIndex m ''port'' \<noteq> pAddr sc \<and>
      pfn sc ''tcp'' (mapIndex m ''ip'' @ '':'' @ mapIndex m ''port'') = Inl e"
  then show "ensureMaster conn sc =
      (Some e, sc, [PoolFunc ''tcp'' (mapIndex m ''ip'' @ '':'' @ mapIndex m ''port'')])"
    by (simp add: ensureMaster_cases)
next
  assume failed: "fst (ensureMaster conn sc) \<noteq> None"
  show "fst (snd (ensureMaster conn sc)) = sc"
  proof (cases "SENTINEL_MASTER conn (name sc)")
    case (Inl err)
    then show ?thesis by (simp add: ensureMaster_cases)
  next
    case (Inr m')
    then show ?thesis using failed
      by (auto simp add: ensureMaster_cases split: if_splits sum.splits)
  qed
  show "\<forall>old. PoolClose old \<notin> set (snd (snd (ensureMaster conn sc)))"
  proof (cases "SENTINEL_MASTER conn (name sc)")
    case (Inl err)
    then show ?thesis by (simp add: ensureMaster_cases)
  next
    case (Inr m')
    then show ?thesis using failed
      by (auto simp add: ensureMaster_cases split: if_splits sum.splits)
  qed
qed

theorem ensureMaster_failure_atomic_witness:
  "ensureMaster aSentinel (aClient ''bucket1'' ''10.0.0.4:6379'' dialWorks) =
     (Some (ErrorsNew ''malformed SENTINEL MASTER response''),
      aClient ''bucket1'' ''10.0.0.4:6379'' dialWorks, []) \<and>
   ensureMaster aSentinel (aClient ''bucket0'' ''10.0.0.4:6379'' dialFails) =
     (Some (ErrorsNew ''connection refused''),
      aClient ''bucket0'' ''10.0.0.4:6379'' dialFails, [PoolFunc ''tcp'' ''10.0.0.5:6379''])"
  using ensureMaster_failure_atomic
      [of aSentinel "aClient ''bucket1'' ''10.0.0.4:6379'' dialWorks" "[''ip'' \<mapsto> ''10.0.0.5'']"]
    ensureMaster_failure_atomic
      [of aSentinel "aClient ''bucket0'' ''10.0.0.4:6379'' dialFails"
        "[''ip'' \<mapsto> ''10.0.0.5'', ''port'' \<mapsto> ''6379'']" "ErrorsNew ''connection refused''"]
  by (simp add: aSentinel_def aClient_def dialFails_def mapIndex_def)

text \<open>
  C7. When the address the sentinel reports is the address of the current pool,
  \<open>ensureMaster\<close> returns \<open>nil\<close>, dials nothing, closes nothing and leaves the client as
  it is. In particular, after a call that returned \<open>nil\<close>, a second call with the same
  report dials nothing.
\<close>

theorem ensureMaster_same_address_noop:
  "(SENTINEL_MASTER conn (name sc) = Inr m \<and>
      mapIndex m ''ip'' \<noteq> [] \<and> mapIndex m ''port'' \<noteq> [] \<and>
      mapIndex m ''ip'' @ '':'' @ mapIndex m ''port'' = pAddr sc \<longrightarrow>
    ensureMaster conn sc = (None, sc, [])) \<and>
   (fst (ensureMaster conn sc) = None \<longrightarrow>
    ensureMaster conn (fst (snd (ensureMaster conn sc))) =
      (None, fst (snd (ensureMaster conn sc)), []))"
proof (intro conjI impI)
  assume "SENTINEL_MASTER conn (name sc) = Inr m \<and>
      mapIndex m ''ip'' \<noteq> [] \<and> mapIndex m ''port'' \<noteq> [] \<and>
      mapIndex m ''ip'' @ '':'' @ mapIndex m ''port'' = pAddr sc"
  then show "ensureMaster conn sc = (None, sc, [])"
    by (simp add: ensureMaster_cases)
next
  assume succeeded: "fst (ensureMaster conn sc) = None"
  let ?sc' = "fst (snd (ensureMaster conn sc))"
  from succeeded obtain m' where m': "SENTINEL_MASTER conn (name sc) = Inr m'"
    and ip: "mapIndex m' ''ip'' \<noteq> []" and port: "mapIndex m' ''port'' \<noteq> []"
    by (cases "SENTINEL_MASTER conn (name sc)")
      (auto simp add: ensureMaster_cases split: if_splits)
  have n: "name ?sc' = name sc" and f: "pfn ?sc' = pfn sc"
    and a: "pAddr ?sc' = mapIndex m' ''ip'' @ '':'' @ mapIndex m' ''port''"
    using succeeded m' ip port
    by (auto simp add: ensureMaster_cases split: if_splits sum.splits)
  show "ensureMaster conn ?sc' = (None, ?sc', [])"
    using m' ip port n a by (simp add: ensureMaster_cases [of conn ?sc'])
qed

theorem ensureMaster_same_address_noop_witness:
  "ensureMaster aSentinel (aClient ''bucket0'' ''10.0.0.5:6379'' dialWorks) =
     (None, aClient ''bucket0'' ''10.0.0.5:6379'' dialWorks, []) \<and>
   ensureMaster aSentinel (aClient ''bucket0'' ''10.0.0.4:6379'' dialWorks) =
     (None,
      (aClient ''bucket0'' ''10.0.0.4:6379'' dialWorks)
        \<lparr>p := Some ''pool to 10.0.0.5:6379'', pAddr := ''10.0.0.5:6379''\<rparr>,
      [PoolFunc ''tcp'' ''10.0.0.5:6379'', PoolClose ''pool to 10.0.0.4:6379'']) \<and>
   ensureMaster aSentinel
     ((aClient ''bucket0'' ''10.0.0.4:6379'' dialWorks)
        \<lparr>p := Some ''pool to 10.0.0.5:6379'', pAddr := ''10.0.0.5:6379''\<rparr>) =
     (None,
      (aClient ''bucket0'' ''10.0.0.4:6379'' dialWorks)
        \<lparr>p := Some ''pool to 10.0.0.5:6379'', pAddr := ''10.0.0.5:6379''\<rparr>, [])"
proof -
  have first: "ensureMaster aSentinel (aClient ''bucket0'' ''10.0.0.4:6379'' dialWorks) =
     (None,
      (aClient ''bucket0'' ''10.0.0.4:6379'' dialWorks)
        \<lparr>p := Some ''pool to 10.0.0.5:6379'', pAddr := ''10.0.0.5:6379''\<rparr>,
      [PoolFunc ''tcp'' ''10.0.0.5:6379'', PoolClose ''pool to 10.0.0.4:6379''])"
    by (simp add: ensureMaster_def Let_def aSentinel_def aClient_def dialWorks_def mapIndex_def)
  have same: "ensureMaster aSentinel (aClient ''bucket0'' ''10.0.0.5:6379'' dialWorks) =
     (None, aClient ''bucket0'' ''10.0.0.5:6379'' dialWorks, [])"
    using ensureMaster_same_address_noop
      [of aSentinel "aClient ''bucket0'' ''10.0.0.5:6379'' dialWorks"
        "[''ip'' \<mapsto> ''10.0.0.5'', ''port'' \<mapsto> ''6379'']"]
    by (simp add: aSentinel_def aClient_def mapIndex_def)
  have second: "ensureMaster aSentinel
     ((aClient ''bucket0'' ''10.0.0.4:6379'' dialWorks)
        \<lparr>p := Some ''pool to 10.0.0.5:6379'', pAddr := ''10.0.0.5:6379''\<rparr>) =
     (None,
      (aClient ''bucket0'' ''10.0.0.4:6379'' dialWorks)
        \<lparr>p := Some ''pool to 10.0.0.5:6379'', pAddr := ''10.0.0.5:6379''\<rparr>, [])"
    using ensureMaster_same_address_noop
      [of aSentinel "aClient ''bucket0'' ''10.0.0.4:6379'' dialWorks"]
    by (simp add: first)
  show ?thesis using first same second by simp
qed

text \<open>
  C8. A successful \<open>ensureSentinelAddrs\<close> replaces the cached list by the remote address
  of the sentinel asked, followed by \<open>ip:port\<close> of each sentinel of the reply, in the
  reply's order; a failed query returns its error and leaves the client as it was.
\<close>

theorem ensureSentinelAddrs_replaces:
  "(SENTINEL_SENTINELS conn (name sc) = Inr mm \<longrightarrow>
    ensureSentinelAddrs conn sc =
      (None, sc\<lparr>addrs := RemoteAddr conn #
                  map (\<lambda>m. mapIndex m ''ip'' @ '':'' @ mapIndex m ''port'') mm\<rparr>)) \<and>
   (SENTINEL_SENTINELS conn (name sc) = Inl e \<longrightarrow> ensureSentinelAddrs conn sc = (Some e, sc))"
  by (simp add: ensureSentinelAddrs_def appendAddrs_map)

theorem ensureSentinelAddrs_replaces_witness:
  "ensureSentinelAddrs aSentinel (aClient ''bucket0'' ''10.0.0.5:6379'' dialWorks) =
     (None, (aClient ''bucket0'' ''10.0.0.5:6379'' dialWorks)
        \<lparr>addrs := [''10.0.0.1:26379'', ''10.0.0.2:26379'', ''10.0.0.3:26380'']\<rparr>) \<and>
   ensureSentinelAddrs aSentinel (aClient ''bucket7'' ''10.0.0.5:6379'' dialWorks) =
     (Some (ErrorsNew ''ERR No such master with that name''),
      aClient ''bucket7'' ''10.0.0.5:6379'' dialWorks)"
  using ensureSentinelAddrs_replaces
      [of aSentinel "aClient ''bucket0'' ''10.0.0.5:6379'' dialWorks"
        "[[''ip'' \<mapsto> ''10.0.0.2'', ''port'' \<mapsto> ''26379''],
          [''ip'' \<mapsto> ''10.0.0.3'', ''port'' \<mapsto> ''26380'']]"]
    ensureSentinelAddrs_replaces
      [of aSentinel "aClient ''bucket7'' ''10.0.0.5:6379'' dialWorks" _
        "ErrorsNew ''ERR No such master with that name''"]
  by (simp add: aSentinel_def aClient_def mapIndex_def)

end
